theory Spec2Isabelle
  imports Main
begin

section \<open>The zip code server (zipsvr/main.go)\<close>

text \<open>
  The server loads postal records from a file, groups them in a map keyed by the
  lower-cased city name and answers \<^verbatim>\<open>/zips/city/<name>\<close> with the JSON encoding of the
  group. This theory embeds \<^verbatim>\<open>loadZipsFromCSV\<close>, \<^verbatim>\<open>loadZipsFromJSON\<close>, the index loop of
  \<^verbatim>\<open>main\<close> and \<^verbatim>\<open>zipsForCityHandler\<close>, together with the parts of the Go standard library
  they call and the server that runs the handler, each modelled at the level the program
  observes it.
\<close>

subsection \<open>Data\<close>

text \<open>
  \<^verbatim>\<open>type zip struct { Zip, City, State string }\<close>. A Go string is a sequence of bytes, and
  so is a HOL \<^typ>\<open>string\<close>.
\<close>

record zip =
  Zip :: string
  City :: string
  State :: string

text \<open>
  \<^verbatim>\<open>type zipSlice []*zip\<close>. A Go slice is either \<^verbatim>\<open>nil\<close> or a sequence of elements; the two
  are told apart by the JSON encoder. The elements are pointers to structs that the loader
  allocates one per row and that nothing mutates afterwards, so the model stores the
  struct values in their place.
\<close>

datatype zipSlice = NilSlice | Slice "zip list"

fun elems :: "zipSlice \<Rightarrow> zip list" where
  "elems NilSlice = []"
| "elems (Slice zs) = zs"

text \<open>Go's \<^verbatim>\<open>append(s, z)\<close>: the result is never \<^verbatim>\<open>nil\<close>.\<close>

definition append_zip :: "zipSlice \<Rightarrow> zip \<Rightarrow> zipSlice" where
  "append_zip s z = Slice (elems s @ [z])"

text \<open>
  \<^verbatim>\<open>type zipIndex map[string]zipSlice\<close>. Reading a key that the map does not hold yields the
  zero value of the element type, the \<^verbatim>\<open>nil\<close> slice.
\<close>

type_synonym zipIndex = "string \<rightharpoonup> zipSlice"

definition index :: "zipIndex \<Rightarrow> string \<Rightarrow> zipSlice" where
  "index zi k = (case zi k of None \<Rightarrow> NilSlice | Some s \<Rightarrow> s)"

subsection \<open>strings.ToLower\<close>

text \<open>
  On a string of ASCII bytes \<^verbatim>\<open>strings.ToLower\<close> maps \<^verbatim>\<open>'A'..'Z'\<close> to \<^verbatim>\<open>'a'..'z'\<close> and leaves
  every other byte alone. On any other string it maps each rune through the Unicode
  tables of package \<^verbatim>\<open>unicode\<close>; that mapping is the parameter \<open>ul\<close> of the model.
\<close>

definition lower_byte :: "char \<Rightarrow> char" where
  "lower_byte c =
     (let n = (of_char c :: nat) in if 65 \<le> n \<and> n \<le> 90 then char_of (n + 32) else c)"

definition is_ascii :: "string \<Rightarrow> bool" where
  "is_ascii s = list_all (\<lambda>c. (of_char c :: nat) < 128) s"

definition ToLower :: "(string \<Rightarrow> string) \<Rightarrow> string \<Rightarrow> string" where
  "ToLower ul s = (if is_ascii s then map lower_byte s else ul s)"

subsection \<open>encoding/csv\<close>

text \<open>
  The file as the CSV reader sees it: a sequence of non-blank lines, each of which either
  splits into fields or is rejected by the lexer (a stray quote). The reader is the one
  \<^verbatim>\<open>csv.NewReader\<close> returns, with \<^verbatim>\<open>FieldsPerRecord = 0\<close>: the first record read fixes the
  number of fields, and \<^verbatim>\<open>Read\<close> reports every later record with another number of fields
  as \<^verbatim>\<open>ErrFieldCount\<close>. At the end of the input \<^verbatim>\<open>Read\<close> returns \<^verbatim>\<open>io.EOF\<close>. The file is one
  that can be read to its end, and the loader never reads again after an error, so the
  state a failed \<^verbatim>\<open>Read\<close> leaves behind is of no account.
\<close>

datatype line = Fields "string list" | BadSyntax

datatype csv_error = EOF | ErrFieldCount | ErrSyntax

record reader =
  pending :: "line list"
  FieldsPerRecord :: nat

definition NewReader :: "line list \<Rightarrow> reader" where
  "NewReader f = \<lparr>pending = f, FieldsPerRecord = 0\<rparr>"

definition Read :: "reader \<Rightarrow> (csv_error + string list) \<times> reader" where
  "Read r =
     (case pending r of
        [] \<Rightarrow> (Inl EOF, r)
      | BadSyntax # rest \<Rightarrow> (Inl ErrSyntax, r\<lparr>pending := rest\<rparr>)
      | Fields fs # rest \<Rightarrow>
          if 0 < FieldsPerRecord r then
            if length fs \<noteq> FieldsPerRecord r then (Inl ErrFieldCount, r\<lparr>pending := rest\<rparr>)
            else (Inr fs, r\<lparr>pending := rest\<rparr>)
          else (Inr fs, r\<lparr>pending := rest, FieldsPerRecord := length fs\<rparr>))"

subsection \<open>loadZipsFromCSV\<close>

text \<open>
  The function returns \<^verbatim>\<open>(zips, nil)\<close> or \<^verbatim>\<open>(nil, err)\<close>, or panics when it indexes a
  record beyond its length (\<^verbatim>\<open>record[0]\<close>, \<^verbatim>\<open>record[3]\<close>, \<^verbatim>\<open>record[6]\<close>). The error values
  keep the message prefix that \<^verbatim>\<open>fmt.Errorf\<close> puts before the cause.
\<close>

datatype json_error = JsonEOF | JsonUnexpectedEOF | JsonSyntaxError | JsonTypeError

datatype load_error =
    ErrOpening                  \<comment> \<open>error opening zips file\<close>
  | ErrFieldNames csv_error     \<comment> \<open>error reading CSV field names\<close>
  | ErrLoadingCSV csv_error     \<comment> \<open>error loading zips from CSV\<close>
  | ErrDecodingJSON json_error  \<comment> \<open>error decoding zips from json\<close>

datatype load_result = Loaded zipSlice | Failed load_error | Panic

text \<open>
  The \<^verbatim>\<open>for\<close> loop of lines 68 to 91. The three index expressions of lines 84 to 86 are
  in range exactly when the record has seven fields or more; otherwise the first of them
  that is out of range panics.
\<close>

function load_loop :: "reader \<Rightarrow> zip list \<Rightarrow> load_result" where
  "load_loop reader zips =
     (case Read reader of (res, reader') \<Rightarrow>
        (case res of
           Inl err \<Rightarrow> if err = EOF then Loaded (Slice zips) else Failed (ErrLoadingCSV err)
         | Inr record \<Rightarrow>
             if length record < 7 then Panic
             else load_loop reader'
                    (zips @ [\<lparr>Zip = record ! 0, City = record ! 3, State = record ! 6\<rparr>])))"
  by pat_completeness auto
termination
  by (relation "measure (\<lambda>(reader, zips). length (pending reader))")
     (auto simp: Read_def split: list.splits line.splits if_splits)

declare load_loop.simps [simp del]

text \<open>
  The file system is the argument: \<open>None\<close> when \<^verbatim>\<open>os.Open\<close> fails, otherwise the lines of
  the file.
\<close>

definition loadZipsFromCSV :: "line list option \<Rightarrow> load_result" where
  "loadZipsFromCSV file =
     (case file of
        None \<Rightarrow> Failed ErrOpening
      | Some f \<Rightarrow>
          (case Read (NewReader f) of (header, reader) \<Rightarrow>
             (case header of
                Inl err \<Rightarrow> Failed (ErrFieldNames err)
              | Inr _ \<Rightarrow> load_loop reader [])))"

subsection \<open>The index loop of main\<close>

text \<open>
  Lines 200 to 204: \<^verbatim>\<open>for _, z := range zips { lower := strings.ToLower(z.City);
  zi[lower] = append(zi[lower], z) }\<close>, started on the empty map.
\<close>

fun index_loop :: "(string \<Rightarrow> string) \<Rightarrow> zipIndex \<Rightarrow> zip list \<Rightarrow> zipIndex" where
  "index_loop ul zi [] = zi"
| "index_loop ul zi (z # zips) =
     (let lower = ToLower ul (City z)
      in index_loop ul (zi(lower \<mapsto> append_zip (index zi lower) z)) zips)"

definition build_index :: "(string \<Rightarrow> string) \<Rightarrow> zip list \<Rightarrow> zipIndex" where
  "build_index ul zips = index_loop ul Map.empty zips"

subsection \<open>loadZipsFromJSON\<close>

text \<open>
  The function opens the file and makes one call of \<^verbatim>\<open>decoder.Decode(&zips)\<close>. The decoder
  of \<^verbatim>\<open>encoding/json\<close> is the parameter \<open>Decode\<close>: it maps the content of the file to the
  decoded slice or to the error it reports (on an input that ends before a value is
  complete that error is \<^verbatim>\<open>io.EOF\<close> or \<^verbatim>\<open>io.ErrUnexpectedEOF\<close>).
\<close>

definition loadZipsFromJSON :: "('f \<Rightarrow> json_error + zipSlice) \<Rightarrow> 'f option \<Rightarrow> load_result" where
  "loadZipsFromJSON Decode file =
     (case file of
        None \<Rightarrow> Failed ErrOpening
      | Some f \<Rightarrow>
          (case Decode f of
             Inl err \<Rightarrow> Failed (ErrDecodingJSON err)
           | Inr zips \<Rightarrow> Loaded zips))"

subsection \<open>path.Split\<close>

text \<open>
  \<^verbatim>\<open>i := strings.LastIndex(path, "/"); return path[:i+1], path[i+1:]\<close>, where the index is
  \<^verbatim>\<open>-1\<close> when the path has no slash.
\<close>

fun last_index_loop :: "string \<Rightarrow> char \<Rightarrow> nat \<Rightarrow> int" where
  "last_index_loop s c 0 = - 1"
| "last_index_loop s c (Suc i) = (if s ! i = c then int i else last_index_loop s c i)"

definition LastIndexByte :: "string \<Rightarrow> char \<Rightarrow> int" where
  "LastIndexByte s c = last_index_loop s c (length s)"

definition Split :: "string \<Rightarrow> string \<times> string" where
  "Split path =
     (let i = LastIndexByte path CHR ''/''
      in (take (nat (i + 1)) path, drop (nat (i + 1)) path))"

subsection \<open>net/http: request, header and response writer\<close>

text \<open>
  Of the request the handler can read the method and \<^verbatim>\<open>r.URL.Path\<close>, the path as the
  server has already percent-decoded it. The record is extensible: every other part of a
  request lives in the extension.
\<close>

record request =
  Method :: string
  URL_Path :: string

text \<open>
  \<^verbatim>\<open>http.Header\<close> is a map from a header name to its list of values; \<^verbatim>\<open>Add\<close> appends a value
  and \<^verbatim>\<open>Set\<close> replaces the list. (Both put the name in canonical form first; the names
  this program uses are canonical already.)
\<close>

type_synonym header = "string \<rightharpoonup> string list"

definition Header_Values :: "header \<Rightarrow> string \<Rightarrow> string list" where
  "Header_Values h k = (case h k of None \<Rightarrow> [] | Some vs \<Rightarrow> vs)"

definition Header_Add :: "header \<Rightarrow> string \<Rightarrow> string \<Rightarrow> header" where
  "Header_Add h k v = h(k \<mapsto> Header_Values h k @ [v])"

definition Header_Set :: "header \<Rightarrow> string \<Rightarrow> string \<Rightarrow> header" where
  "Header_Set h k v = h(k \<mapsto> [v])"

text \<open>
  The \<^verbatim>\<open>http.ResponseWriter\<close>, by its documented contract: \<^verbatim>\<open>Header()\<close> is a map the handler
  may change until the header is written; \<^verbatim>\<open>WriteHeader\<close> sends the status and the header
  map as it is then, once; \<^verbatim>\<open>Write\<close> calls \<^verbatim>\<open>WriteHeader(200)\<close> first when no header has been
  written. \<open>sentHeader\<close> and \<open>status\<close> are what went out, \<open>body\<close> the bytes written.
  \<open>writeErr\<close> is the connection: \<open>None\<close> when it takes every write, \<open>Some e\<close> when
  writes fail with the error message \<open>e\<close>.
\<close>

record response =
  handlerHeader :: header
  wroteHeader :: bool
  status :: nat
  sentHeader :: header
  body :: string
  writeErr :: "string option"

definition newResponse :: "string option \<Rightarrow> response" where
  "newResponse e =
     \<lparr>handlerHeader = Map.empty, wroteHeader = False, status = 0, sentHeader = Map.empty,
      body = [], writeErr = e\<rparr>"

definition WriteHeader :: "response \<Rightarrow> nat \<Rightarrow> response" where
  "WriteHeader w code =
     (if wroteHeader w then w
      else w\<lparr>wroteHeader := True, status := code, sentHeader := handlerHeader w\<rparr>)"

definition Write :: "response \<Rightarrow> string \<Rightarrow> string option \<times> response" where
  "Write w b =
     (let w1 = (if wroteHeader w then w else WriteHeader w 200)
      in case writeErr w1 of
           Some e \<Rightarrow> (Some e, w1)
         | None \<Rightarrow> (None, w1\<lparr>body := body w1 @ b\<rparr>))"

text \<open>
  \<^verbatim>\<open>http.Error(w, error, code)\<close> sets two headers, writes the header with the code and
  prints the message and a newline. (Go releases from 1.23 on delete a few more headers
  first, none of which this program sets.)
\<close>

definition http_Error :: "response \<Rightarrow> string \<Rightarrow> nat \<Rightarrow> response" where
  "http_Error w msg code =
     (let w1 = w\<lparr>handlerHeader :=
                  Header_Set (handlerHeader w) ''Content-Type'' ''text/plain; charset=utf-8''\<rparr>;
          w2 = w1\<lparr>handlerHeader :=
                  Header_Set (handlerHeader w1) ''X-Content-Type-Options'' ''nosniff''\<rparr>;
          w3 = WriteHeader w2 code
      in snd (Write w3 (msg @ ''\<newline>'')))"

subsection \<open>encoding/json\<close>

text \<open>
  \<^verbatim>\<open>json.NewEncoder(w).Encode(v)\<close> for a \<^verbatim>\<open>zipSlice\<close>: a \<^verbatim>\<open>nil\<close> slice encodes as \<^verbatim>\<open>null\<close>, any
  other slice as an array of objects with the keys of the struct tags, in the order of
  the fields; the encoding, followed by a newline, goes to the writer in one \<^verbatim>\<open>Write\<close>,
  whose error is the result. Marshalling itself cannot fail on strings. The encoder of a
  string (the quotes and the escapes) is the parameter \<open>enc\<close>.
\<close>

definition marshal_zip :: "(string \<Rightarrow> string) \<Rightarrow> zip \<Rightarrow> string" where
  \<open>marshal_zip enc z =
     ''{"zip":'' @ enc (Zip z) @ '',"city":'' @ enc (City z) @ '',"state":'' @ enc (State z) @ ''}''\<close>

fun join_commas :: "string list \<Rightarrow> string" where
  "join_commas [] = []"
| "join_commas [x] = x"
| "join_commas (x # y # ys) = x @ '','' @ join_commas (y # ys)"

fun marshal :: "(string \<Rightarrow> string) \<Rightarrow> zipSlice \<Rightarrow> string" where
  "marshal enc NilSlice = ''null''"
| "marshal enc (Slice zs) = ''['' @ join_commas (map (marshal_zip enc) zs) @ '']''"

definition Encode :: "(string \<Rightarrow> string) \<Rightarrow> response \<Rightarrow> zipSlice \<Rightarrow> string option \<times> response" where
  "Encode enc w v = Write w (marshal enc v @ ''\<newline>'')"

subsection \<open>zipsForCityHandler\<close>

definition zipsForCityHandler ::
  "(string \<Rightarrow> string) \<Rightarrow> (string \<Rightarrow> string) \<Rightarrow> zipIndex \<Rightarrow> response \<Rightarrow> 'a request_scheme \<Rightarrow> response"
  where
  "zipsForCityHandler ul enc zi w r =
     (let city = snd (Split (URL_Path r));
          lcity = ToLower ul city;
          w1 = w\<lparr>handlerHeader :=
                  Header_Add (handlerHeader w) ''Content-Type'' ''application/json; charset=utf-8''\<rparr>;
          w2 = w1\<lparr>handlerHeader :=
                  Header_Add (handlerHeader w1) ''Access-Control-Allow-Origin'' ''*''\<rparr>
      in case Encode enc w2 (index zi lcity) of
           (None, w3) \<Rightarrow> w3
         | (Some err, w3) \<Rightarrow> http_Error w3 (''error encoding json: '' @ err) 500)"

subsection \<open>The server\<close>

text \<open>
  \<^verbatim>\<open>main\<close> registers the handler for the paths that start with \<^verbatim>\<open>/zips/city/\<close> (line 218) and
  serves with \<^verbatim>\<open>http.ListenAndServe\<close> (line 236). For every request it routes to the handler
  the server makes a writer of its own, runs the handler on it and sends what the handler
  wrote; to a request of method \<^verbatim>\<open>HEAD\<close> it sends the status and the header but none of the
  bytes written as body. \<open>e\<close> is the connection of the request, as in \<open>newResponse\<close>. The
  header fields the server adds by itself (the date, the length) are left out.
\<close>

record sent_response =
  sent_status :: nat
  sent_header :: header
  sent_body :: string

definition serveZipsForCity ::
  "(string \<Rightarrow> string) \<Rightarrow> (string \<Rightarrow> string) \<Rightarrow> zipIndex \<Rightarrow> string option
     \<Rightarrow> 'a request_scheme \<Rightarrow> sent_response"
  where
  "serveZipsForCity ul enc zi e r =
     (let w = zipsForCityHandler ul enc zi (newResponse e) r
      in \<lparr>sent_status = status w, sent_header = sentHeader w,
          sent_body = (if Method r = ''HEAD'' then [] else body w)\<rparr>)"

subsection \<open>Notions of the specification\<close>

text \<open>
  A valid delimited-text dataset, as the loader needs it: there is a header row, every
  later row has as many fields as the header (the reader's rule, and that of RFC 4180) and
  at least the seven fields that the positions 0, 3 and 6 require. The dataset is the list
  of its rows, each row the list of its fields.
\<close>

definition valid_csv :: "string list list \<Rightarrow> bool" where
  "valid_csv rows \<longleftrightarrow>
     rows \<noteq> [] \<and> (\<forall>r \<in> set (tl rows). length r = length (hd rows) \<and> 7 \<le> length r)"

text \<open>
  Two ASCII strings are equal up to letter case when they have the same length and, at
  each position, the same byte or the upper-case and lower-case form of one letter
  (\<^verbatim>\<open>'A'\<close> is 65, \<^verbatim>\<open>'Z'\<close> is 90, and the lower-case letter is 32 higher).
\<close>

definition same_letter :: "char \<Rightarrow> char \<Rightarrow> bool" where
  "same_letter a b \<longleftrightarrow>
     (let x = (of_char a :: nat); y = (of_char b :: nat)
      in x = y \<or> (65 \<le> x \<and> x \<le> 90 \<and> y = x + 32) \<or> (65 \<le> y \<and> y \<le> 90 \<and> x = y + 32))"

definition equal_up_to_case :: "string \<Rightarrow> string \<Rightarrow> bool" where
  "equal_up_to_case s t \<longleftrightarrow> is_ascii s \<and> is_ascii t \<and> list_all2 same_letter s t"

section \<open>Properties\<close>

subsection \<open>The index loop\<close>

lemma index_loop_map:
  "index_loop ul zi zips k =
     (let g = filter (\<lambda>z. ToLower ul (City z) = k) zips
      in if g = [] then zi k else Some (Slice (elems (index zi k) @ g)))"
  by (induction zips arbitrary: zi) (auto simp: Let_def index_def append_zip_def)

lemma build_index_map:
  "build_index ul zips k =
     (let g = filter (\<lambda>z. ToLower ul (City z) = k) zips
      in if g = [] then None else Some (Slice g))"
  by (simp add: build_index_def index_loop_map index_def Let_def)

lemma index_build_index:
  "elems (index (build_index ul zips) k) = filter (\<lambda>z. ToLower ul (City z) = k) zips"
  by (simp add: index_def build_index_map Let_def)

lemma dom_build_index:
  "dom (build_index ul zips) = (\<lambda>z. ToLower ul (City z)) ` set zips"
  by (auto simp: dom_def build_index_map Let_def filter_empty_conv)

lemma sum_group_sizes:
  assumes "finite K" "f ` set zs \<subseteq> K"
  shows "(\<Sum>k \<in> K. length (filter (\<lambda>z. f z = k) zs)) = length zs"
  using assms(2)
proof (induction zs)
  case Nil
  show ?case by simp
next
  case (Cons z zs)
  have "(\<Sum>k \<in> K. length (filter (\<lambda>z. f z = k) (z # zs))) =
        (\<Sum>k \<in> K. (if f z = k then 1 else 0) + length (filter (\<lambda>z. f z = k) zs))"
    by (rule sum.cong) simp_all
  also have "\<dots> = (\<Sum>k \<in> K. if f z = k then 1 else 0)
                  + (\<Sum>k \<in> K. length (filter (\<lambda>z. f z = k) zs))"
    by (simp add: sum.distrib)
  also have "(\<Sum>k \<in> K. if f z = k then 1 else 0) = (1::nat)"
    using Cons.prems assms(1) by simp
  finally show ?case
    using Cons by simp
qed

lemma ToLower_Seattle: "ToLower ul ''Seattle'' = ''seattle''"
  by code_simp

lemma ToLower_New_York: "ToLower ul ''New York'' = ''new york''"
  by code_simp

lemma ToLower_Tacoma: "ToLower ul ''Tacoma'' = ''tacoma''"
  by code_simp

text \<open>
  \<^bold>\<open>C1.\<close> After the index loop has run over the loaded records, the group under a key is
  the sequence of exactly those records whose lower-cased city is the key, in the order of
  the input. So every record is in the group of its lower-cased city, is in no group under
  any other key, and the sizes of the groups add up to the number of records.
\<close>

theorem index_groups_by_lowercased_city:
  "(\<forall>k. elems (index (build_index ul zips) k) = filter (\<lambda>z. ToLower ul (City z) = k) zips)
   \<and> (\<forall>z \<in> set zips. z \<in> set (elems (index (build_index ul zips) (ToLower ul (City z)))))
   \<and> (\<forall>z k. z \<in> set (elems (index (build_index ul zips) k)) \<longrightarrow> k = ToLower ul (City z))
   \<and> (\<Sum>k \<in> dom (build_index ul zips). length (elems (index (build_index ul zips) k)))
       = length zips"
proof -
  have "(\<Sum>k \<in> dom (build_index ul zips). length (elems (index (build_index ul zips) k)))
          = length zips"
    using sum_group_sizes [of "dom (build_index ul zips)" "\<lambda>z. ToLower ul (City z)" zips]
    by (simp add: index_build_index dom_build_index)
  then show ?thesis
    by (simp add: index_build_index)
qed

theorem index_groups_by_lowercased_city_witness:
  "elems (index (build_index (\<lambda>s. s)
       [\<lparr>Zip = ''98101'', City = ''Seattle'', State = ''WA''\<rparr>,
        \<lparr>Zip = ''10001'', City = ''New York'', State = ''NY''\<rparr>,
        \<lparr>Zip = ''98102'', City = ''Seattle'', State = ''WA''\<rparr>]) ''seattle'') =
     [\<lparr>Zip = ''98101'', City = ''Seattle'', State = ''WA''\<rparr>,
      \<lparr>Zip = ''98102'', City = ''Seattle'', State = ''WA''\<rparr>]
   \<and> elems (index (build_index (\<lambda>s. s)
       [\<lparr>Zip = ''98101'', City = ''Seattle'', State = ''WA''\<rparr>,
        \<lparr>Zip = ''10001'', City = ''New York'', State = ''NY''\<rparr>,
        \<lparr>Zip = ''98102'', City = ''Seattle'', State = ''WA''\<rparr>]) ''new york'') =
     [\<lparr>Zip = ''10001'', City = ''New York'', State = ''NY''\<rparr>]"
  using index_groups_by_lowercased_city [of "\<lambda>s. s"
       "[\<lparr>Zip = ''98101'', City = ''Seattle'', State = ''WA''\<rparr>,
        \<lparr>Zip = ''10001'', City = ''New York'', State = ''NY''\<rparr>,
        \<lparr>Zip = ''98102'', City = ''Seattle'', State = ''WA''\<rparr>]", THEN conjunct1]
  by (simp add: ToLower_Seattle ToLower_New_York)

text \<open>
  \<^bold>\<open>C7.\<close> The index is a function of the record sequence alone: the loop reads the slice in
  order and nothing else. Two indexes built from the same sequence have the same keys, the
  lower-cased cities of the records, and under every key the same group in the same order.
\<close>

theorem index_build_deterministic:
  assumes "zi1 = build_index ul zips" and "zi2 = build_index ul zips"
  shows "dom zi1 = dom zi2 \<and> (\<forall>k. index zi1 k = index zi2 k)
       \<and> dom zi1 = (\<lambda>z. ToLower ul (City z)) ` set zips
       \<and> (\<forall>k. elems (index zi1 k) = filter (\<lambda>z. ToLower ul (City z) = k) zips)"
  using assms by (simp add: dom_build_index index_build_index)

theorem index_build_deterministic_witness:
  "dom (build_index (\<lambda>s. s)
       [\<lparr>Zip = ''98402'', City = ''Tacoma'', State = ''WA''\<rparr>,
        \<lparr>Zip = ''98101'', City = ''Seattle'', State = ''WA''\<rparr>]) =
   dom (build_index (\<lambda>s. s)
       [\<lparr>Zip = ''98402'', City = ''Tacoma'', State = ''WA''\<rparr>,
        \<lparr>Zip = ''98101'', City = ''Seattle'', State = ''WA''\<rparr>])
   \<and> dom (build_index (\<lambda>s. s)
       [\<lparr>Zip = ''98402'', City = ''Tacoma'', State = ''WA''\<rparr>,
        \<lparr>Zip = ''98101'', City = ''Seattle'', State = ''WA''\<rparr>]) = {''tacoma'', ''seattle''}"
  using index_build_deterministic [OF refl refl, of "\<lambda>s. s"
       "[\<lparr>Zip = ''98402'', City = ''Tacoma'', State = ''WA''\<rparr>,
        \<lparr>Zip = ''98101'', City = ''Seattle'', State = ''WA''\<rparr>]"]
  by (simp add: ToLower_Seattle ToLower_Tacoma)

subsection \<open>The loaders\<close>

lemma load_loop_row:
  assumes "length r = n" and "7 \<le> length r"
  shows "load_loop \<lparr>pending = Fields r # ps, FieldsPerRecord = n\<rparr> acc =
         load_loop \<lparr>pending = ps, FieldsPerRecord = n\<rparr>
           (acc @ [\<lparr>Zip = r ! 0, City = r ! 3, State = r ! 6\<rparr>])"
  using assms by (subst load_loop.simps) (simp add: Read_def)

lemma load_loop_EOF:
  "pending reader = [] \<Longrightarrow> load_loop reader zips = Loaded (Slice zips)"
  by (subst load_loop.simps) (simp add: Read_def)

lemma load_loop_field_count:
  assumes "length bad \<noteq> n" and "0 < n"
  shows "load_loop \<lparr>pending = Fields bad # later, FieldsPerRecord = n\<rparr> acc =
         Failed (ErrLoadingCSV ErrFieldCount)"
  using assms by (subst load_loop.simps) (simp add: Read_def)

lemma load_loop_prefix:
  assumes "\<forall>r \<in> set data. length r = n \<and> 7 \<le> length r"
  shows "load_loop \<lparr>pending = map Fields data @ rest, FieldsPerRecord = n\<rparr> acc =
         load_loop \<lparr>pending = rest, FieldsPerRecord = n\<rparr>
           (acc @ map (\<lambda>r. \<lparr>Zip = r ! 0, City = r ! 3, State = r ! 6\<rparr>) data)"
  using assms by (induction data arbitrary: acc) (simp_all add: load_loop_row)

lemma load_loop_rows:
  assumes "\<forall>r \<in> set data. length r = n \<and> 7 \<le> length r"
  shows "load_loop \<lparr>pending = map Fields data, FieldsPerRecord = n\<rparr> acc =
         Loaded (Slice (acc @ map (\<lambda>r. \<lparr>Zip = r ! 0, City = r ! 3, State = r ! 6\<rparr>) data))"
  using load_loop_prefix [OF assms, of "[]" acc] by (simp add: load_loop_EOF)

lemma loadZipsFromCSV_valid:
  assumes "valid_csv rows"
  shows "loadZipsFromCSV (Some (map Fields rows)) =
         Loaded (Slice (map (\<lambda>r. \<lparr>Zip = r ! 0, City = r ! 3, State = r ! 6\<rparr>) (tl rows)))"
proof (cases rows)
  case Nil
  with assms show ?thesis by (simp add: valid_csv_def)
next
  case (Cons h data)
  with assms have data: "\<forall>r \<in> set data. length r = length h \<and> 7 \<le> length r"
    unfolding valid_csv_def by fastforce
  have "Read (NewReader (map Fields rows)) =
        (Inr h, \<lparr>pending = map Fields data, FieldsPerRecord = length h\<rparr>)"
    by (simp add: Cons Read_def NewReader_def)
  then show ?thesis
    using load_loop_rows [OF data, of "[]"] by (simp add: loadZipsFromCSV_def Cons)
qed

text \<open>
  Conversely, a dataset of rows that the load accepts is valid (the reader never returns a
  row of no fields, so none is assumed here): the notion leaves out no dataset that loads.
\<close>

lemma load_loop_Loaded_rows:
  assumes "0 < n"
    and "load_loop \<lparr>pending = map Fields data, FieldsPerRecord = n\<rparr> acc = Loaded zs"
  shows "\<forall>r \<in> set data. length r = n \<and> 7 \<le> length r"
  using assms(2)
proof (induction data arbitrary: acc)
  case Nil
  show ?case by simp
next
  case (Cons r data)
  from Cons.prems assms(1) have r: "length r = n \<and> 7 \<le> length r"
    by (subst (asm) load_loop.simps) (auto simp: Read_def split: if_splits)
  with Cons.prems have "load_loop \<lparr>pending = map Fields data, FieldsPerRecord = n\<rparr>
      (acc @ [\<lparr>Zip = r ! 0, City = r ! 3, State = r ! 6\<rparr>]) = Loaded zs"
    by (simp add: load_loop_row)
  with Cons.IH r show ?case
    by simp
qed

lemma loadZipsFromCSV_Loaded_valid:
  assumes "loadZipsFromCSV (Some (map Fields rows)) = Loaded zs" and "[] \<notin> set rows"
  shows "valid_csv rows"
proof (cases rows)
  case Nil
  with assms(1) show ?thesis
    by (simp add: loadZipsFromCSV_def Read_def NewReader_def)
next
  case (Cons h data)
  with assms(2) have h: "0 < length h"
    by auto
  have "Read (NewReader (map Fields rows)) =
        (Inr h, \<lparr>pending = map Fields data, FieldsPerRecord = length h\<rparr>)"
    by (simp add: Cons Read_def NewReader_def)
  with assms(1) have
    "load_loop \<lparr>pending = map Fields data, FieldsPerRecord = length h\<rparr> [] = Loaded zs"
    by (simp add: loadZipsFromCSV_def)
  from load_loop_Loaded_rows [OF h this] show ?thesis
    by (auto simp: valid_csv_def Cons)
qed

text \<open>
  \<^bold>\<open>C2.\<close> On a valid dataset the load returns a sequence with one record per row after
  the header: its length is the number of rows less one, and record \<open>i\<close> has the fields at
  the positions 0, 3 and 6 of row \<open>i + 1\<close> as its code, city and region.
\<close>

theorem csv_load_valid:
  assumes "valid_csv rows"
  shows "\<exists>zips. loadZipsFromCSV (Some (map Fields rows)) = Loaded (Slice zips)
           \<and> length zips = length rows - 1
           \<and> (\<forall>i < length zips.
                 Zip (zips ! i) = rows ! (i + 1) ! 0
               \<and> City (zips ! i) = rows ! (i + 1) ! 3
               \<and> State (zips ! i) = rows ! (i + 1) ! 6)"
proof -
  let ?zips = "map (\<lambda>r. \<lparr>Zip = r ! 0, City = r ! 3, State = r ! 6\<rparr>) (tl rows)"
  have "\<forall>i < length ?zips. Zip (?zips ! i) = rows ! (i + 1) ! 0
               \<and> City (?zips ! i) = rows ! (i + 1) ! 3
               \<and> State (?zips ! i) = rows ! (i + 1) ! 6"
    by (simp add: nth_tl)
  moreover have "length ?zips = length rows - 1"
    by simp
  ultimately show ?thesis
    using loadZipsFromCSV_valid [OF assms] by blast
qed

theorem csv_load_valid_witness:
  "valid_csv [[''zip'', ''type'', ''decommissioned'', ''primary_city'', ''acceptable_cities'',
               ''unacceptable_cities'', ''state''],
              [''98101'', ''STANDARD'', ''0'', ''Seattle'', ''-'', ''-'', ''WA''],
              [''10001'', ''STANDARD'', ''0'', ''New York'', ''-'', ''-'', ''NY'']]
   \<and> (\<exists>zips. loadZipsFromCSV (Some (map Fields
             [[''zip'', ''type'', ''decommissioned'', ''primary_city'', ''acceptable_cities'',
               ''unacceptable_cities'', ''state''],
              [''98101'', ''STANDARD'', ''0'', ''Seattle'', ''-'', ''-'', ''WA''],
              [''10001'', ''STANDARD'', ''0'', ''New York'', ''-'', ''-'', ''NY'']])) = Loaded (Slice zips)
         \<and> length zips = 2
         \<and> zips ! 0 = \<lparr>Zip = ''98101'', City = ''Seattle'', State = ''WA''\<rparr>
         \<and> zips ! 1 = \<lparr>Zip = ''10001'', City = ''New York'', State = ''NY''\<rparr>)"
proof -
  let ?rows = "[[''zip'', ''type'', ''decommissioned'', ''primary_city'', ''acceptable_cities'',
               ''unacceptable_cities'', ''state''],
              [''98101'', ''STANDARD'', ''0'', ''Seattle'', ''-'', ''-'', ''WA''],
              [''10001'', ''STANDARD'', ''0'', ''New York'', ''-'', ''-'', ''NY'']]"
  have v: "valid_csv ?rows"
    by (simp add: valid_csv_def)
  from csv_load_valid [OF v] obtain zips where
    l: "loadZipsFromCSV (Some (map Fields ?rows)) = Loaded (Slice zips)"
    and n: "length zips = 2"
    and f: "\<forall>i<length zips. Zip (zips ! i) = ?rows ! (i + 1) ! 0
               \<and> City (zips ! i) = ?rows ! (i + 1) ! 3
               \<and> State (zips ! i) = ?rows ! (i + 1) ! 6"
    by auto
  from f n have "zips ! 0 = \<lparr>Zip = ''98101'', City = ''Seattle'', State = ''WA''\<rparr>"
    and "zips ! 1 = \<lparr>Zip = ''10001'', City = ''New York'', State = ''NY''\<rparr>"
    by (auto intro!: zip.equality)
  with v l n show ?thesis by blast
qed

text \<open>
  A row whose number of fields differs from the header's is reported by the reader, and
  the load returns that error and no records. With a header of seven or more fields this
  covers every row of fewer than seven fields.
\<close>

lemma short_row_is_field_count_error:
  assumes "7 \<le> length h" and "\<forall>r \<in> set good. length r = length h" and "length bad < 7"
  shows "loadZipsFromCSV (Some (map Fields (h # good @ bad # later))) =
         Failed (ErrLoadingCSV ErrFieldCount)"
proof -
  have "Read (NewReader (map Fields (h # good @ bad # later))) =
        (Inr h, \<lparr>pending = map Fields good @ Fields bad # map Fields later,
                  FieldsPerRecord = length h\<rparr>)"
    by (simp add: Read_def NewReader_def)
  then have "loadZipsFromCSV (Some (map Fields (h # good @ bad # later))) =
        load_loop \<lparr>pending = map Fields good @ Fields bad # map Fields later,
                   FieldsPerRecord = length h\<rparr> []"
    by (simp add: loadZipsFromCSV_def)
  also have "\<dots> = load_loop \<lparr>pending = Fields bad # map Fields later, FieldsPerRecord = length h\<rparr>
                     (map (\<lambda>r. \<lparr>Zip = r ! 0, City = r ! 3, State = r ! 6\<rparr>) good)"
    using assms(1,2) load_loop_prefix [of good "length h" _ "[]"] by simp
  also have "\<dots> = Failed (ErrLoadingCSV ErrFieldCount)"
    using assms(1,3) by (intro load_loop_field_count) auto
  finally show ?thesis .
qed

text \<open>
  \<^bold>\<open>C5.\<close> A dataset whose header has three fields and whose row has three fields passes
  the reader, which only compares a row with the header; the load then indexes position 3
  of a record of length 3 and panics, where the specification has it return a parse error.
\<close>

theorem short_row_under_short_header_panics:
  "loadZipsFromCSV (Some [Fields [''zip'', ''city'', ''state''],
                          Fields [''98101'', ''Seattle'', ''WA'']]) = Panic"
  by (simp add: loadZipsFromCSV_def Read_def NewReader_def load_loop.simps)

text \<open>
  \<^bold>\<open>C6\<close>, as the code has it. For delimited text, the end of the stream met by the row loop
  is success, and the load returns the records read so far; the end of the stream met
  while reading the header row fails the load. For structured text, every error of the
  one decoding call, the end of the stream included, fails the load.
\<close>

theorem end_of_stream:
  "(pending reader = [] \<longrightarrow> load_loop reader zips = Loaded (Slice zips))
   \<and> loadZipsFromCSV (Some []) = Failed (ErrFieldNames EOF)
   \<and> (Decode f = Inl e \<longrightarrow> loadZipsFromJSON Decode (Some f) = Failed (ErrDecodingJSON e))"
  by (simp add: load_loop_EOF loadZipsFromCSV_def Read_def NewReader_def loadZipsFromJSON_def)

theorem end_of_stream_witness:
  "load_loop \<lparr>pending = [], FieldsPerRecord = 7\<rparr>
       [\<lparr>Zip = ''98101'', City = ''Seattle'', State = ''WA''\<rparr>]
     = Loaded (Slice [\<lparr>Zip = ''98101'', City = ''Seattle'', State = ''WA''\<rparr>])
   \<and> loadZipsFromCSV (Some []) = Failed (ErrFieldNames EOF)
   \<and> loadZipsFromJSON (\<lambda>s. if s = [] then Inl JsonEOF else Inl JsonSyntaxError)
       (Some ([] :: string))
     = Failed (ErrDecodingJSON JsonEOF)"
  using end_of_stream [of "\<lparr>pending = [], FieldsPerRecord = 7\<rparr>"
      "[\<lparr>Zip = ''98101'', City = ''Seattle'', State = ''WA''\<rparr>]"
      "\<lambda>s. if s = [] then Inl JsonEOF else Inl JsonSyntaxError" "[] :: string" JsonEOF]
  by simp

text \<open>
  The statement of the specification fails on the empty delimited-text stream: the first \<^verbatim>\<open>Read\<close> meets the
  end of the stream and the load returns the error of line 58, not a record sequence.
\<close>

theorem empty_stream_fails:
  "loadZipsFromCSV (Some []) = Failed (ErrFieldNames EOF)
   \<and> (\<forall>zips. loadZipsFromCSV (Some []) \<noteq> Loaded zips)"
  by (simp add: loadZipsFromCSV_def Read_def NewReader_def)

subsection \<open>The path\<close>

lemma last_index_loop_absent:
  "n \<le> length s \<Longrightarrow> c \<notin> set (take n s) \<Longrightarrow> last_index_loop s c n = - 1"
  by (induction n) (auto simp: take_Suc_conv_app_nth)

lemma last_index_loop_found:
  "c \<notin> set q \<Longrightarrow> k \<le> length q \<Longrightarrow>
   last_index_loop (p @ c # q) c (Suc (length p) + k) = int (length p)"
proof (induction k)
  case 0
  then show ?case by simp
next
  case (Suc k)
  then have "q ! k \<noteq> c"
    by (metis Suc_le_lessD nth_mem)
  with Suc show ?case
    by (simp add: nth_append)
qed

lemma Split_after_slash:
  assumes "CHR ''/'' \<notin> set q"
  shows "Split (p @ CHR ''/'' # q) = (p @ ''/'', q)"
proof -
  have "LastIndexByte (p @ CHR ''/'' # q) CHR ''/'' = int (length p)"
    using last_index_loop_found [OF assms, of "length q" p] by (simp add: LastIndexByte_def)
  then show ?thesis
    by (simp add: Split_def nat_add_distrib)
qed

lemma Split_no_slash:
  assumes "CHR ''/'' \<notin> set s"
  shows "Split s = ([], s)"
  using assms last_index_loop_absent [of "length s" s "CHR ''/''"]
  by (simp add: Split_def LastIndexByte_def)

lemma Split_prefix:
  assumes "CHR ''/'' \<notin> set q"
  shows "Split (''/zips/city/'' @ q) = (''/zips/city/'', q)"
  using Split_after_slash [OF assms, of "''/zips/city''"] by simp

lemma Split_trailing:
  assumes "CHR ''/'' \<notin> set q" "p \<noteq> []" "last p = CHR ''/''"
  shows "Split (p @ q) = (p, q)"
proof -
  from assms(2,3) have "p = butlast p @ ''/''"
    by (metis append_butlast_last_id)
  then show ?thesis
    using Split_after_slash [OF assms(1), of "butlast p"]
    by (metis append.assoc append_Cons append_Nil)
qed

lemma trailing_segment:
  "\<exists>dir city. rest = dir @ city \<and> CHR ''/'' \<notin> set city \<and> (dir = [] \<or> last dir = CHR ''/'')"
proof -
  let ?city = "rev (takeWhile (\<lambda>c. c \<noteq> CHR ''/'') (rev rest))"
  let ?dir = "rev (dropWhile (\<lambda>c. c \<noteq> CHR ''/'') (rev rest))"
  have "rest = ?dir @ ?city"
    by (metis rev_append rev_rev_ident takeWhile_dropWhile_id)
  moreover have "CHR ''/'' \<notin> set ?city"
    by (auto dest: set_takeWhileD)
  moreover have "?dir = [] \<or> last ?dir = CHR ''/''"
    using hd_dropWhile [of "\<lambda>c. c \<noteq> CHR ''/''" "rev rest"] by (auto simp: last_rev)
  ultimately show ?thesis by blast
qed

subsection \<open>The handler\<close>

lemmas handler_defs =
  zipsForCityHandler_def Encode_def Write_def WriteHeader_def http_Error_def
  Header_Add_def Header_Set_def Header_Values_def Let_def

text \<open>
  On a fresh writer whose connection takes the write, the handler leaves the two header
  fields, the status 200 and, as the body, the encoding of the slice that the index holds
  under the lower-cased last segment of the path.
\<close>

lemma handler_fresh:
  "zipsForCityHandler ul enc zi (newResponse None) r =
     \<lparr>handlerHeader = [''Content-Type'' \<mapsto> [''application/json; charset=utf-8''],
                        ''Access-Control-Allow-Origin'' \<mapsto> [''*'']],
      wroteHeader = True, status = 200,
      sentHeader = [''Content-Type'' \<mapsto> [''application/json; charset=utf-8''],
                    ''Access-Control-Allow-Origin'' \<mapsto> [''*'']],
      body = marshal enc (index zi (ToLower ul (snd (Split (URL_Path r))))) @ ''\<newline>'',
      writeErr = None\<rparr>"
  by (simp add: handler_defs newResponse_def)

lemma ToLower_new_york_escaped: "ToLower ul ''new%20york'' = ''new%20york''"
  by code_simp

text \<open>
  \<^bold>\<open>C9.\<close> For a request path made of the prefix \<^verbatim>\<open>/zips/city/\<close> and a rest, the city
  argument that \<^verbatim>\<open>path.Split\<close> yields is the trailing segment of the rest: the rest is some
  directory part, empty or ending in a slash, followed by the city, which has no slash.
  The city is a piece of the path as the server delivers it, byte for byte, and it is the
  argument of the lookup: the body of the response is the encoding of what the index,
  whatever it is, holds under the lower-cased city, with nothing else done to the city
  on the way. The response is also the one for the path that holds the city alone after
  the prefix.
\<close>

theorem city_argument_is_trailing_segment:
  "\<exists>dir city. rest = dir @ city \<and> CHR ''/'' \<notin> set city \<and> (dir = [] \<or> last dir = CHR ''/'')
      \<and> Split (''/zips/city/'' @ rest) = (''/zips/city/'' @ dir, city)
      \<and> zipsForCityHandler ul enc zi w (r\<lparr>URL_Path := ''/zips/city/'' @ rest\<rparr>) =
        zipsForCityHandler ul enc zi w (r\<lparr>URL_Path := ''/zips/city/'' @ city\<rparr>)
      \<and> zipsForCityHandler ul enc zi (newResponse None)
          (r\<lparr>URL_Path := ''/zips/city/'' @ rest\<rparr>) =
        \<lparr>handlerHeader = [''Content-Type'' \<mapsto> [''application/json; charset=utf-8''],
                           ''Access-Control-Allow-Origin'' \<mapsto> [''*'']],
         wroteHeader = True, status = 200,
         sentHeader = [''Content-Type'' \<mapsto> [''application/json; charset=utf-8''],
                       ''Access-Control-Allow-Origin'' \<mapsto> [''*'']],
         body = marshal enc (index zi (ToLower ul city)) @ ''\<newline>'',
         writeErr = None\<rparr>"
proof -
  obtain dir city where *: "rest = dir @ city" "CHR ''/'' \<notin> set city"
      "dir = [] \<or> last dir = CHR ''/''"
    using trailing_segment by blast
  have "last (''/zips/city/'' @ dir) = CHR ''/''"
    using *(3) by auto
  then have "Split ((''/zips/city/'' @ dir) @ city) = (''/zips/city/'' @ dir, city)"
    using Split_trailing [OF *(2), of "''/zips/city/'' @ dir"] by simp
  then have s: "Split (''/zips/city/'' @ rest) = (''/zips/city/'' @ dir, city)"
    by (simp add: *(1))
  then have "zipsForCityHandler ul enc zi w (r\<lparr>URL_Path := ''/zips/city/'' @ rest\<rparr>) =
        zipsForCityHandler ul enc zi w (r\<lparr>URL_Path := ''/zips/city/'' @ city\<rparr>)"
    using Split_prefix [OF *(2)] by (simp add: zipsForCityHandler_def)
  moreover from s have "zipsForCityHandler ul enc zi (newResponse None)
          (r\<lparr>URL_Path := ''/zips/city/'' @ rest\<rparr>) =
        \<lparr>handlerHeader = [''Content-Type'' \<mapsto> [''application/json; charset=utf-8''],
                           ''Access-Control-Allow-Origin'' \<mapsto> [''*'']],
         wroteHeader = True, status = 200,
         sentHeader = [''Content-Type'' \<mapsto> [''application/json; charset=utf-8''],
                       ''Access-Control-Allow-Origin'' \<mapsto> [''*'']],
         body = marshal enc (index zi (ToLower ul city)) @ ''\<newline>'',
         writeErr = None\<rparr>"
    by (simp add: handler_fresh)
  ultimately show ?thesis
    using * s by blast
qed

text \<open>
  An index with a record for the city \<^verbatim>\<open>New York\<close> and one whose city is spelt
  \<^verbatim>\<open>new%20york\<close>: for the path \<^verbatim>\<open>/zips/city/new%20york\<close>, as delivered, the handler finds the
  second and not the first.
\<close>

theorem city_argument_is_trailing_segment_witness:
  \<open>Split ''/zips/city/new%20york'' = (''/zips/city/'', ''new%20york'')
   \<and> body (zipsForCityHandler (\<lambda>s. s) (\<lambda>s. ''"'' @ s @ ''"'')
        (build_index (\<lambda>s. s)
           [\<lparr>Zip = ''10001'', City = ''New York'', State = ''NY''\<rparr>,
            \<lparr>Zip = ''00000'', City = ''new%20york'', State = ''XX''\<rparr>])
        (newResponse None) \<lparr>Method = ''GET'', URL_Path = ''/zips/city/new%20york''\<rparr>) =
     ''[{"zip":"00000","city":"new%20york","state":"XX"}]'' @ ''\<newline>''\<close>
proof -
  let ?zi = "build_index (\<lambda>s. s)
           [\<lparr>Zip = ''10001'', City = ''New York'', State = ''NY''\<rparr>,
            \<lparr>Zip = ''00000'', City = ''new%20york'', State = ''XX''\<rparr>]"
  let ?enc = "\<lambda>s. [CHR 0x22] @ s @ [CHR 0x22]"
  obtain dir city where *: "''new%20york'' = dir @ city" "CHR ''/'' \<notin> set city"
      "dir = [] \<or> last dir = CHR ''/''"
      "Split (''/zips/city/'' @ ''new%20york'') = (''/zips/city/'' @ dir, city)"
      "zipsForCityHandler (\<lambda>s. s) ?enc ?zi (newResponse None)
          (\<lparr>Method = ''GET'', URL_Path = ''/''\<rparr>\<lparr>URL_Path := ''/zips/city/'' @ ''new%20york''\<rparr>) =
        \<lparr>handlerHeader = [''Content-Type'' \<mapsto> [''application/json; charset=utf-8''],
                           ''Access-Control-Allow-Origin'' \<mapsto> [''*'']],
         wroteHeader = True, status = 200,
         sentHeader = [''Content-Type'' \<mapsto> [''application/json; charset=utf-8''],
                       ''Access-Control-Allow-Origin'' \<mapsto> [''*'']],
         body = marshal ?enc (index ?zi (ToLower (\<lambda>s. s) city)) @ ''\<newline>'',
         writeErr = None\<rparr>"
    using city_argument_is_trailing_segment [of "''new%20york''" "\<lambda>s. s" ?enc ?zi
        "newResponse None" "\<lparr>Method = ''GET'', URL_Path = ''/''\<rparr>"]
    by blast
  have "CHR ''/'' \<notin> set ''new%20york''"
    by simp
  with *(1) have "CHR ''/'' \<notin> set dir"
    by (metis Un_iff set_append)
  with *(3) have "dir = []"
    by (metis last_in_set)
  with *(1) have city: "city = ''new%20york''"
    by simp
  have "index ?zi ''new%20york'' = Slice [\<lparr>Zip = ''00000'', City = ''new%20york'', State = ''XX''\<rparr>]"
    by (simp add: index_def build_index_map ToLower_New_York ToLower_new_york_escaped)
  with *(5) have "body (zipsForCityHandler (\<lambda>s. s) ?enc ?zi (newResponse None)
      \<lparr>Method = ''GET'', URL_Path = ''/zips/city/new%20york''\<rparr>) =
      marshal ?enc (Slice [\<lparr>Zip = ''00000'', City = ''new%20york'', State = ''XX''\<rparr>]) @ ''\<newline>''"
    by (simp add: city ToLower_new_york_escaped)
  with *(4) \<open>dir = []\<close> city show ?thesis
    by (simp add: marshal_zip_def)
qed

text \<open>
  The example of the specification, with a string encoder that only adds the quotes: the
  two Seattle records come back as an array, in the order of the file.
\<close>

lemma seattle_example:
  \<open>body (zipsForCityHandler (\<lambda>s. s) (\<lambda>s. ''"'' @ s @ ''"'')
       (build_index (\<lambda>s. s)
          [\<lparr>Zip = ''98101'', City = ''Seattle'', State = ''WA''\<rparr>,
           \<lparr>Zip = ''98102'', City = ''Seattle'', State = ''WA''\<rparr>,
           \<lparr>Zip = ''10001'', City = ''New York'', State = ''NY''\<rparr>])
       (newResponse None) \<lparr>Method = ''GET'', URL_Path = ''/zips/city/seattle''\<rparr>) =
   ''[{"zip":"98101","city":"Seattle","state":"WA"},{"zip":"98102","city":"Seattle","state":"WA"}]''
     @ ''\<newline>''\<close>
  by code_simp

lemma lower_byte_same_letter:
  assumes "same_letter a b"
  shows "lower_byte a = lower_byte b"
proof -
  have up: "lower_byte c = d"
    if "65 \<le> (of_char c :: nat)" "(of_char c :: nat) \<le> 90" "(of_char d :: nat) = of_char c + 32"
    for c d
  proof -
    have "lower_byte c = char_of (of_char c + 32 :: nat)"
      using that by (simp add: lower_byte_def)
    also have "\<dots> = d"
      using that(3) by (metis char_of_char)
    finally show ?thesis .
  qed
  have low: "lower_byte d = d"
    if "65 \<le> (of_char c :: nat)" "(of_char d :: nat) = of_char c + 32" for c d
    using that by (simp add: lower_byte_def)
  from assms consider "(of_char a :: nat) = of_char b"
    | "65 \<le> (of_char a :: nat)" "(of_char a :: nat) \<le> 90" "(of_char b :: nat) = of_char a + 32"
    | "65 \<le> (of_char b :: nat)" "(of_char b :: nat) \<le> 90" "(of_char a :: nat) = of_char b + 32"
    by (auto simp: same_letter_def Let_def)
  then show ?thesis
  proof cases
    case 1
    then show ?thesis by simp
  next
    case 2
    then show ?thesis using up [of a b] low [of a b] by simp
  next
    case 3
    then show ?thesis using up [of b a] low [of b a] by simp
  qed
qed

lemma ToLower_equal_up_to_case:
  assumes "equal_up_to_case s t"
  shows "ToLower ul s = ToLower ul t"
proof -
  from assms have letters: "list_all2 same_letter s t" and ascii: "is_ascii s" "is_ascii t"
    by (simp_all add: equal_up_to_case_def)
  from letters have "map lower_byte s = map lower_byte t"
    by (induction rule: list_all2_induct) (simp_all add: lower_byte_same_letter)
  with ascii show ?thesis
    by (simp add: ToLower_def)
qed

lemma Seattle_up_to_case: "equal_up_to_case ''Seattle'' ''SEATTLE''"
  by code_simp

lemma ToLower_SEATTLE: "ToLower ul ''SEATTLE'' = ''seattle''"
  by code_simp

text \<open>
  \<^bold>\<open>C3\<close>, as the code has it. The handler lower-cases the city argument with
  \<^verbatim>\<open>strings.ToLower\<close>, does nothing else to it, and encodes what the index holds under that
  key. So two city arguments of ASCII bytes that are equal up to letter case, and more
  generally two arguments that \<^verbatim>\<open>strings.ToLower\<close> maps to the same string, get the same
  response: the encoding of the slice under their common lower-cased form, which in the
  index that the loop of \<^verbatim>\<open>main\<close> builds is the group of the records whose city lower-cases
  to that form.
\<close>

theorem lookup_case_insensitive:
  assumes "CHR ''/'' \<notin> set q1" and "CHR ''/'' \<notin> set q2"
    and "equal_up_to_case q1 q2 \<or> ToLower ul q1 = ToLower ul q2"
  shows "zipsForCityHandler ul enc zi w (r\<lparr>URL_Path := ''/zips/city/'' @ q1\<rparr>) =
         zipsForCityHandler ul enc zi w (r\<lparr>URL_Path := ''/zips/city/'' @ q2\<rparr>)
       \<and> serveZipsForCity ul enc zi e (r\<lparr>URL_Path := ''/zips/city/'' @ q1\<rparr>) =
         serveZipsForCity ul enc zi e (r\<lparr>URL_Path := ''/zips/city/'' @ q2\<rparr>)
       \<and> zipsForCityHandler ul enc zi (newResponse None)
           (r\<lparr>URL_Path := ''/zips/city/'' @ q1\<rparr>) =
         \<lparr>handlerHeader = [''Content-Type'' \<mapsto> [''application/json; charset=utf-8''],
                            ''Access-Control-Allow-Origin'' \<mapsto> [''*'']],
          wroteHeader = True, status = 200,
          sentHeader = [''Content-Type'' \<mapsto> [''application/json; charset=utf-8''],
                        ''Access-Control-Allow-Origin'' \<mapsto> [''*'']],
          body = marshal enc (index zi (ToLower ul q2)) @ ''\<newline>'',
          writeErr = None\<rparr>
       \<and> elems (index (build_index ul zips) (ToLower ul q1)) =
         filter (\<lambda>z. ToLower ul (City z) = ToLower ul q2) zips"
proof -
  from assms(3) have l: "ToLower ul q1 = ToLower ul q2"
    using ToLower_equal_up_to_case by blast
  have h: "zipsForCityHandler ul enc zi w (r\<lparr>URL_Path := ''/zips/city/'' @ q1\<rparr>) =
         zipsForCityHandler ul enc zi w (r\<lparr>URL_Path := ''/zips/city/'' @ q2\<rparr>)" for w
    using l Split_prefix [OF assms(1)] Split_prefix [OF assms(2)]
    by (simp add: zipsForCityHandler_def)
  have "serveZipsForCity ul enc zi e (r\<lparr>URL_Path := ''/zips/city/'' @ q1\<rparr>) =
         serveZipsForCity ul enc zi e (r\<lparr>URL_Path := ''/zips/city/'' @ q2\<rparr>)"
    unfolding serveZipsForCity_def Let_def h by simp
  moreover have "zipsForCityHandler ul enc zi (newResponse None)
           (r\<lparr>URL_Path := ''/zips/city/'' @ q1\<rparr>) =
         \<lparr>handlerHeader = [''Content-Type'' \<mapsto> [''application/json; charset=utf-8''],
                            ''Access-Control-Allow-Origin'' \<mapsto> [''*'']],
          wroteHeader = True, status = 200,
          sentHeader = [''Content-Type'' \<mapsto> [''application/json; charset=utf-8''],
                        ''Access-Control-Allow-Origin'' \<mapsto> [''*'']],
          body = marshal enc (index zi (ToLower ul q2)) @ ''\<newline>'',
          writeErr = None\<rparr>"
    using l Split_prefix [OF assms(1)] by (simp add: handler_fresh)
  moreover have "elems (index (build_index ul zips) (ToLower ul q1)) =
         filter (\<lambda>z. ToLower ul (City z) = ToLower ul q2) zips"
    using l by (simp add: index_build_index)
  ultimately show ?thesis
    using h by blast
qed

theorem lookup_case_insensitive_witness:
  \<open>equal_up_to_case ''Seattle'' ''SEATTLE''
   \<and> zipsForCityHandler (\<lambda>s. s) (\<lambda>s. ''"'' @ s @ ''"'')
       (build_index (\<lambda>s. s) [\<lparr>Zip = ''98101'', City = ''Seattle'', State = ''WA''\<rparr>])
       (newResponse None) \<lparr>Method = ''GET'', URL_Path = ''/zips/city/Seattle''\<rparr> =
     zipsForCityHandler (\<lambda>s. s) (\<lambda>s. ''"'' @ s @ ''"'')
       (build_index (\<lambda>s. s) [\<lparr>Zip = ''98101'', City = ''Seattle'', State = ''WA''\<rparr>])
       (newResponse None) \<lparr>Method = ''GET'', URL_Path = ''/zips/city/SEATTLE''\<rparr>
   \<and> body (zipsForCityHandler (\<lambda>s. s) (\<lambda>s. ''"'' @ s @ ''"'')
       (build_index (\<lambda>s. s) [\<lparr>Zip = ''98101'', City = ''Seattle'', State = ''WA''\<rparr>])
       (newResponse None) \<lparr>Method = ''GET'', URL_Path = ''/zips/city/Seattle''\<rparr>) =
     ''[{"zip":"98101","city":"Seattle","state":"WA"}]'' @ ''\<newline>''\<close>
proof -
  let ?zi = "build_index (\<lambda>s. s) [\<lparr>Zip = ''98101'', City = ''Seattle'', State = ''WA''\<rparr>]"
  let ?enc = "\<lambda>s. [CHR 0x22] @ s @ [CHR 0x22]"
  have a: "CHR ''/'' \<notin> set ''Seattle''" and b: "CHR ''/'' \<notin> set ''SEATTLE''"
    by simp_all
  have c: "equal_up_to_case ''Seattle'' ''SEATTLE'' \<or> ToLower (\<lambda>s. s) ''Seattle'' = ToLower (\<lambda>s. s) ''SEATTLE''"
    using Seattle_up_to_case by simp
  note t = lookup_case_insensitive [where ?q1.0 = "''Seattle''" and ?q2.0 = "''SEATTLE''"
      and ul = "\<lambda>s. s" and enc = ?enc and zi = ?zi and w = "newResponse None"
      and r = "\<lparr>Method = ''GET'', URL_Path = ''/''\<rparr>" and e = None and zips = "[]",
      OF a b c]
  have "index ?zi ''seattle'' = Slice [\<lparr>Zip = ''98101'', City = ''Seattle'', State = ''WA''\<rparr>]"
    by (simp add: index_def build_index_map ToLower_Seattle)
  then have "marshal ?enc (index ?zi (ToLower (\<lambda>s. s) ''SEATTLE'')) =
      [CHR ''['', CHR ''{'', CHR 0x22] @ ''zip'' @ [CHR 0x22, CHR '':'', CHR 0x22] @ ''98101''
      @ [CHR 0x22, CHR '','', CHR 0x22] @ ''city'' @ [CHR 0x22, CHR '':'', CHR 0x22] @ ''Seattle''
      @ [CHR 0x22, CHR '','', CHR 0x22] @ ''state'' @ [CHR 0x22, CHR '':'', CHR 0x22] @ ''WA''
      @ [CHR 0x22, CHR ''}'', CHR '']'']"
    by (simp add: ToLower_SEATTLE marshal_zip_def)
  with t [THEN conjunct1] t [THEN conjunct2, THEN conjunct2, THEN conjunct1] show ?thesis
    using Seattle_up_to_case by simp
qed

lemma long_s_not_ascii: "\<not> is_ascii ([CHR 0xC5, CHR 0xBF] @ ''eattle'')"
  by code_simp

text \<open>
  The statement of the specification, which is about every city argument, fails off
  ASCII. The long s (U+017F, in UTF-8 the bytes \<^verbatim>\<open>C5 BF\<close>) is a lower-case letter whose
  upper-case form is \<^verbatim>\<open>S\<close>, so the argument that starts with it and ends in \<^verbatim>\<open>eattle\<close> is equal
  up to the case of its first letter to \<^verbatim>\<open>Seattle\<close>. \<^verbatim>\<open>strings.ToLower\<close> turns \<^verbatim>\<open>S\<close> into \<^verbatim>\<open>s\<close>
  but has no other lower-case form for the long s and returns that argument as it is. With
  the identity for \<open>ul\<close>, and with any \<open>ul\<close> that returns that argument as it is, the two
  arguments are looked up under two keys, and only one finds the record.
\<close>

theorem long_s_is_not_folded:
  \<open>body (zipsForCityHandler (\<lambda>s. s) (\<lambda>s. ''"'' @ s @ ''"'')
       (build_index (\<lambda>s. s) [\<lparr>Zip = ''98101'', City = ''Seattle'', State = ''WA''\<rparr>])
       (newResponse None) \<lparr>Method = ''GET'', URL_Path = ''/zips/city/Seattle''\<rparr>) =
     ''[{"zip":"98101","city":"Seattle","state":"WA"}]'' @ ''\<newline>''
   \<and> body (zipsForCityHandler (\<lambda>s. s) (\<lambda>s. ''"'' @ s @ ''"'')
       (build_index (\<lambda>s. s) [\<lparr>Zip = ''98101'', City = ''Seattle'', State = ''WA''\<rparr>])
       (newResponse None)
       \<lparr>Method = ''GET'', URL_Path = ''/zips/city/'' @ [CHR 0xC5, CHR 0xBF] @ ''eattle''\<rparr>) =
     ''null'' @ ''\<newline>''
   \<and> \<not> (\<exists>ul. ul ([CHR 0xC5, CHR 0xBF] @ ''eattle'') = [CHR 0xC5, CHR 0xBF] @ ''eattle''
        \<and> body (zipsForCityHandler ul (\<lambda>s. ''"'' @ s @ ''"'')
              (build_index ul [\<lparr>Zip = ''98101'', City = ''Seattle'', State = ''WA''\<rparr>])
              (newResponse None)
              \<lparr>Method = ''GET'', URL_Path = ''/zips/city/'' @ [CHR 0xC5, CHR 0xBF] @ ''eattle''\<rparr>) =
          body (zipsForCityHandler ul (\<lambda>s. ''"'' @ s @ ''"'')
              (build_index ul [\<lparr>Zip = ''98101'', City = ''Seattle'', State = ''WA''\<rparr>])
              (newResponse None)
              \<lparr>Method = ''GET'', URL_Path = ''/zips/city/Seattle''\<rparr>))\<close>
proof (intro conjI)
  show \<open>body (zipsForCityHandler (\<lambda>s. s) (\<lambda>s. ''"'' @ s @ ''"'')
       (build_index (\<lambda>s. s) [\<lparr>Zip = ''98101'', City = ''Seattle'', State = ''WA''\<rparr>])
       (newResponse None) \<lparr>Method = ''GET'', URL_Path = ''/zips/city/Seattle''\<rparr>) =
     ''[{"zip":"98101","city":"Seattle","state":"WA"}]'' @ ''\<newline>''\<close>
    by code_simp
  show \<open>body (zipsForCityHandler (\<lambda>s. s) (\<lambda>s. ''"'' @ s @ ''"'')
       (build_index (\<lambda>s. s) [\<lparr>Zip = ''98101'', City = ''Seattle'', State = ''WA''\<rparr>])
       (newResponse None)
       \<lparr>Method = ''GET'', URL_Path = ''/zips/city/'' @ [CHR 0xC5, CHR 0xBF] @ ''eattle''\<rparr>) =
     ''null'' @ ''\<newline>''\<close>
    by code_simp
  let ?s = "[CHR 0xC5, CHR 0xBF] @ ''eattle''"
  let ?enc = "\<lambda>s. [CHR 0x22] @ s @ [CHR 0x22]"
  show "\<not> (\<exists>ul. ul ?s = ?s
        \<and> body (zipsForCityHandler ul ?enc
              (build_index ul [\<lparr>Zip = ''98101'', City = ''Seattle'', State = ''WA''\<rparr>])
              (newResponse None) \<lparr>Method = ''GET'', URL_Path = ''/zips/city/'' @ ?s\<rparr>) =
          body (zipsForCityHandler ul ?enc
              (build_index ul [\<lparr>Zip = ''98101'', City = ''Seattle'', State = ''WA''\<rparr>])
              (newResponse None) \<lparr>Method = ''GET'', URL_Path = ''/zips/city/Seattle''\<rparr>))"
  proof
    assume "\<exists>ul. ul ?s = ?s
        \<and> body (zipsForCityHandler ul ?enc
              (build_index ul [\<lparr>Zip = ''98101'', City = ''Seattle'', State = ''WA''\<rparr>])
              (newResponse None) \<lparr>Method = ''GET'', URL_Path = ''/zips/city/'' @ ?s\<rparr>) =
          body (zipsForCityHandler ul ?enc
              (build_index ul [\<lparr>Zip = ''98101'', City = ''Seattle'', State = ''WA''\<rparr>])
              (newResponse None) \<lparr>Method = ''GET'', URL_Path = ''/zips/city/Seattle''\<rparr>)"
    then obtain ul where ul: "ul ?s = ?s"
      and eq: "body (zipsForCityHandler ul ?enc
              (build_index ul [\<lparr>Zip = ''98101'', City = ''Seattle'', State = ''WA''\<rparr>])
              (newResponse None) \<lparr>Method = ''GET'', URL_Path = ''/zips/city/'' @ ?s\<rparr>) =
          body (zipsForCityHandler ul ?enc
              (build_index ul [\<lparr>Zip = ''98101'', City = ''Seattle'', State = ''WA''\<rparr>])
              (newResponse None) \<lparr>Method = ''GET'', URL_Path = ''/zips/city/Seattle''\<rparr>)"
      by blast
    have low: "ToLower ul ?s = ?s"
      using ul long_s_not_ascii by (simp add: ToLower_def)
    have s1: "Split (''/zips/city/'' @ ?s) = (''/zips/city/'', ?s)"
      by (rule Split_prefix) simp
    have s2: "Split (''/zips/city/'' @ ''Seattle'') = (''/zips/city/'', ''Seattle'')"
      by (rule Split_prefix) simp
    have "index (build_index ul [\<lparr>Zip = ''98101'', City = ''Seattle'', State = ''WA''\<rparr>]) ?s
        = NilSlice"
      by (simp add: index_def build_index_map ToLower_Seattle)
    moreover have "index (build_index ul [\<lparr>Zip = ''98101'', City = ''Seattle'', State = ''WA''\<rparr>])
        ''seattle'' = Slice [\<lparr>Zip = ''98101'', City = ''Seattle'', State = ''WA''\<rparr>]"
      by (simp add: index_def build_index_map ToLower_Seattle)
    ultimately show False
      using eq low s1 s2 by (simp add: handler_fresh ToLower_Seattle)
  qed
qed

text \<open>
  \<^bold>\<open>C4\<close>, as the code has it. For a city whose lower-cased name is not a key of the index
  the map yields the \<^verbatim>\<open>nil\<close> slice, and the response has status 200 and the body \<^verbatim>\<open>null\<close>
  followed by a newline.
\<close>

theorem absent_city_null:
  assumes "CHR ''/'' \<notin> set city" and "zi (ToLower ul city) = None"
  shows "status (zipsForCityHandler ul enc zi (newResponse e)
                   (r\<lparr>URL_Path := ''/zips/city/'' @ city\<rparr>)) = 200
       \<and> body (zipsForCityHandler ul enc zi (newResponse None)
                   (r\<lparr>URL_Path := ''/zips/city/'' @ city\<rparr>)) = ''null'' @ ''\<newline>''"
  using assms Split_prefix [OF assms(1)]
  by (simp add: handler_defs newResponse_def index_def split: option.splits)

theorem absent_city_null_witness:
  "build_index (\<lambda>s. s) [\<lparr>Zip = ''98101'', City = ''Seattle'', State = ''WA''\<rparr>]
       (ToLower (\<lambda>s. s) ''Tacoma'') = None
   \<and> status (zipsForCityHandler (\<lambda>s. s) (\<lambda>s. s)
       (build_index (\<lambda>s. s) [\<lparr>Zip = ''98101'', City = ''Seattle'', State = ''WA''\<rparr>])
       (newResponse None) \<lparr>Method = ''GET'', URL_Path = ''/zips/city/Tacoma''\<rparr>) = 200
   \<and> body (zipsForCityHandler (\<lambda>s. s) (\<lambda>s. s)
       (build_index (\<lambda>s. s) [\<lparr>Zip = ''98101'', City = ''Seattle'', State = ''WA''\<rparr>])
       (newResponse None) \<lparr>Method = ''GET'', URL_Path = ''/zips/city/Tacoma''\<rparr>) = ''null'' @ ''\<newline>''"
proof -
  have a: "CHR ''/'' \<notin> set ''Tacoma''"
    by simp
  have b: "build_index (\<lambda>s. s) [\<lparr>Zip = ''98101'', City = ''Seattle'', State = ''WA''\<rparr>]
       (ToLower (\<lambda>s. s) ''Tacoma'') = None"
    by (simp add: build_index_map ToLower_Seattle ToLower_Tacoma)
  show ?thesis
    using b absent_city_null [where city = "''Tacoma''" and ul = "\<lambda>s. s" and enc = "\<lambda>s. s"
        and zi = "build_index (\<lambda>s. s) [\<lparr>Zip = ''98101'', City = ''Seattle'', State = ''WA''\<rparr>]"
        and e = None and r = "\<lparr>Method = ''GET'', URL_Path = ''/''\<rparr>", OF a b]
    by simp
qed

text \<open>
  The statement of the specification fails on its own example: the body for
  \<^verbatim>\<open>/zips/city/atlantis\<close> is \<^verbatim>\<open>null\<close> and a newline, not \<^verbatim>\<open>[]\<close>.
\<close>

theorem absent_city_body_is_not_empty_array:
  "status (zipsForCityHandler (\<lambda>s. s) (\<lambda>s. s)
       (build_index (\<lambda>s. s) [\<lparr>Zip = ''98101'', City = ''Seattle'', State = ''WA''\<rparr>])
       (newResponse None) \<lparr>Method = ''GET'', URL_Path = ''/zips/city/atlantis''\<rparr>) = 200
   \<and> body (zipsForCityHandler (\<lambda>s. s) (\<lambda>s. s)
       (build_index (\<lambda>s. s) [\<lparr>Zip = ''98101'', City = ''Seattle'', State = ''WA''\<rparr>])
       (newResponse None) \<lparr>Method = ''GET'', URL_Path = ''/zips/city/atlantis''\<rparr>) = ''null'' @ ''\<newline>''
   \<and> body (zipsForCityHandler (\<lambda>s. s) (\<lambda>s. s)
       (build_index (\<lambda>s. s) [\<lparr>Zip = ''98101'', City = ''Seattle'', State = ''WA''\<rparr>])
       (newResponse None) \<lparr>Method = ''GET'', URL_Path = ''/zips/city/atlantis''\<rparr>) \<noteq> ''[]''
   \<and> body (zipsForCityHandler (\<lambda>s. s) (\<lambda>s. s)
       (build_index (\<lambda>s. s) [\<lparr>Zip = ''98101'', City = ''Seattle'', State = ''WA''\<rparr>])
       (newResponse None) \<lparr>Method = ''GET'', URL_Path = ''/zips/city/atlantis''\<rparr>) \<noteq> ''[]'' @ ''\<newline>''"
  by code_simp

text \<open>
  \<^bold>\<open>C8.\<close> Whatever the index, the request and the fate of the write, the header that the
  handler sends holds \<^verbatim>\<open>application/json; charset=utf-8\<close> among the values of
  \<^verbatim>\<open>Content-Type\<close> and \<^verbatim>\<open>*\<close> among those of \<^verbatim>\<open>Access-Control-Allow-Origin\<close>, provided no
  header had been written before the handler ran.
\<close>

theorem lookup_response_headers:
  assumes "\<not> wroteHeader w"
  shows "''application/json; charset=utf-8''
           \<in> set (Header_Values (sentHeader (zipsForCityHandler ul enc zi w r)) ''Content-Type'')
       \<and> ''*'' \<in> set (Header_Values (sentHeader (zipsForCityHandler ul enc zi w r))
                        ''Access-Control-Allow-Origin'')"
  using assms by (simp add: handler_defs split: option.splits)

theorem lookup_response_headers_witness:
  "\<not> wroteHeader (newResponse (Some ''broken pipe''))
   \<and> ''application/json; charset=utf-8''
        \<in> set (Header_Values (sentHeader (zipsForCityHandler (\<lambda>s. s) (\<lambda>s. s) Map.empty
                  (newResponse (Some ''broken pipe''))
                  \<lparr>Method = ''GET'', URL_Path = ''/zips/city/atlantis''\<rparr>)) ''Content-Type'')
   \<and> ''*''
        \<in> set (Header_Values (sentHeader (zipsForCityHandler (\<lambda>s. s) (\<lambda>s. s) Map.empty
                  (newResponse (Some ''broken pipe''))
                  \<lparr>Method = ''GET'', URL_Path = ''/zips/city/atlantis''\<rparr>))
                  ''Access-Control-Allow-Origin'')"
proof -
  have a: "\<not> wroteHeader (newResponse (Some ''broken pipe''))"
    by (simp add: newResponse_def)
  show ?thesis
    using a lookup_response_headers [OF a, of "\<lambda>s. s" "\<lambda>s. s" Map.empty
        "\<lparr>Method = ''GET'', URL_Path = ''/zips/city/atlantis''\<rparr>"]
    by simp
qed

text \<open>
  \<^bold>\<open>C10\<close>, as the code has it. The handler reads nothing of the request but its path: for
  two requests with the same path, whatever their methods and their other parts, it does
  the same to equal writers, and the server sends the same status and the same header
  fields of the handler. The responses sent are identical when neither request or both
  are of method \<^verbatim>\<open>HEAD\<close>, as for \<^verbatim>\<open>GET\<close> and \<^verbatim>\<open>POST\<close>; to a \<^verbatim>\<open>HEAD\<close> request the server sends no
  body.
\<close>

theorem lookup_ignores_method:
  assumes "URL_Path r1 = URL_Path r2"
  shows "zipsForCityHandler ul enc zi w r1 = zipsForCityHandler ul enc zi w r2
       \<and> sent_status (serveZipsForCity ul enc zi e r1) = sent_status (serveZipsForCity ul enc zi e r2)
       \<and> sent_header (serveZipsForCity ul enc zi e r1) = sent_header (serveZipsForCity ul enc zi e r2)
       \<and> ((Method r1 = ''HEAD'') = (Method r2 = ''HEAD'')
            \<longrightarrow> serveZipsForCity ul enc zi e r1 = serveZipsForCity ul enc zi e r2)
       \<and> (Method r1 = ''HEAD'' \<longrightarrow> sent_body (serveZipsForCity ul enc zi e r1) = [])"
proof -
  have "zipsForCityHandler ul enc zi w r1 = zipsForCityHandler ul enc zi w r2" for w
    using assms by (simp add: zipsForCityHandler_def)
  then show ?thesis
    by (simp add: serveZipsForCity_def Let_def)
qed

theorem lookup_ignores_method_witness:
  "URL_Path \<lparr>Method = ''GET'', URL_Path = ''/zips/city/seattle''\<rparr> =
     URL_Path \<lparr>Method = ''POST'', URL_Path = ''/zips/city/seattle''\<rparr>
   \<and> serveZipsForCity (\<lambda>s. s) (\<lambda>s. s)
       (build_index (\<lambda>s. s) [\<lparr>Zip = ''98101'', City = ''Seattle'', State = ''WA''\<rparr>])
       None \<lparr>Method = ''GET'', URL_Path = ''/zips/city/seattle''\<rparr> =
     serveZipsForCity (\<lambda>s. s) (\<lambda>s. s)
       (build_index (\<lambda>s. s) [\<lparr>Zip = ''98101'', City = ''Seattle'', State = ''WA''\<rparr>])
       None \<lparr>Method = ''POST'', URL_Path = ''/zips/city/seattle''\<rparr>
   \<and> sent_body (serveZipsForCity (\<lambda>s. s) (\<lambda>s. s)
       (build_index (\<lambda>s. s) [\<lparr>Zip = ''98101'', City = ''Seattle'', State = ''WA''\<rparr>])
       None \<lparr>Method = ''HEAD'', URL_Path = ''/zips/city/seattle''\<rparr>) = []"
proof -
  let ?zi = "build_index (\<lambda>s. s) [\<lparr>Zip = ''98101'', City = ''Seattle'', State = ''WA''\<rparr>]"
  have a: "URL_Path \<lparr>Method = ''GET'', URL_Path = ''/zips/city/seattle''\<rparr> =
     URL_Path \<lparr>Method = ''POST'', URL_Path = ''/zips/city/seattle''\<rparr>"
    by simp
  have b: "URL_Path \<lparr>Method = ''HEAD'', URL_Path = ''/zips/city/seattle''\<rparr> =
     URL_Path \<lparr>Method = ''GET'', URL_Path = ''/zips/city/seattle''\<rparr>"
    by simp
  show ?thesis
    using a lookup_ignores_method [OF a, of "\<lambda>s. s" "\<lambda>s. s" ?zi "newResponse None" None]
      lookup_ignores_method [OF b, of "\<lambda>s. s" "\<lambda>s. s" ?zi "newResponse None" None]
    by simp
qed

text \<open>
  The statement of the specification, which is about any two methods, fails for \<^verbatim>\<open>GET\<close> and
  \<^verbatim>\<open>HEAD\<close>: on the same path and index the first response carries the array, the second no
  body.
\<close>

theorem head_response_has_no_body:
  \<open>sent_body (serveZipsForCity (\<lambda>s. s) (\<lambda>s. ''"'' @ s @ ''"'')
       (build_index (\<lambda>s. s) [\<lparr>Zip = ''98101'', City = ''Seattle'', State = ''WA''\<rparr>])
       None \<lparr>Method = ''GET'', URL_Path = ''/zips/city/seattle''\<rparr>) =
     ''[{"zip":"98101","city":"Seattle","state":"WA"}]'' @ ''\<newline>''
   \<and> sent_body (serveZipsForCity (\<lambda>s. s) (\<lambda>s. ''"'' @ s @ ''"'')
       (build_index (\<lambda>s. s) [\<lparr>Zip = ''98101'', City = ''Seattle'', State = ''WA''\<rparr>])
       None \<lparr>Method = ''HEAD'', URL_Path = ''/zips/city/seattle''\<rparr>) = []\<close>
  by code_simp

end
